theory Spec2Isabelle
  imports Complex_Main "HOL-Library.List_Lexorder"
begin

section \<open>Tables\<close>

text \<open>
  The engine of \<^verbatim>\<open>modules/formula_translator.py\<close> works on polars DataFrames. A DataFrame
  is modelled by its ordered, named columns; a column by its values, null included.
  The type \<open>'f\<close> stands for the 64-bit floats of the runtime.

  Columns are modelled by their values only. The schema checks polars makes on the
  dtypes of join keys are therefore outside the model; whenever polars raises on a
  schema, \<open>apply_analysis\<close> below behaves as after any other exception. The cast to a
  common dtype that \<^verbatim>\<open>when/then/otherwise\<close> makes belongs to the runtime below.
\<close>

datatype 'f val = Null | IntV int | FloatV 'f | StrV string | BoolV bool

type_synonym 'f column = "string \<times> 'f val list"
type_synonym 'f table = "'f column list"

definition columns :: "'f table \<Rightarrow> string list" where
  "columns df = map fst df"

definition height :: "'f table \<Rightarrow> nat" where
  "height df = (case df of [] \<Rightarrow> 0 | c # _ \<Rightarrow> length (snd c))"

text \<open>
  The rows of a frame that satisfies the invariant below, whose columns all have \<open>n\<close>
  values: the heads of the columns, then the rows of their tails.
\<close>

fun rows_of_cols :: "nat \<Rightarrow> 'a list list \<Rightarrow> 'a list list" where
  "rows_of_cols 0 cols = []"
| "rows_of_cols (Suc n) cols = map hd cols # rows_of_cols n (map tl cols)"

definition rows :: "'f table \<Rightarrow> 'f val list list" where
  "rows df = rows_of_cols (height df) (map snd df)"

text \<open>The invariant of a DataFrame: unique column names, one value per row in every column.\<close>

definition wf_table :: "'f table \<Rightarrow> bool" where
  "wf_table df \<longleftrightarrow> distinct (columns df) \<and> list_all (\<lambda>c. length (snd c) = height df) df"

section \<open>Exceptions and user messages\<close>

text \<open>
  Every \<^verbatim>\<open>raise\<close> of the source and every exception of the library is a value \<open>Inl e\<close>.
  \<open>LibraryError\<close> collects what the dtype-dependent kernels of polars raise.
\<close>

datatype exn =
    KeyError string
  | ValueError string
  | ColumnNotFoundError string
  | DuplicateError string
  | LibraryError string

text \<open>The calls of \<^verbatim>\<open>st.error\<close>, \<^verbatim>\<open>st.warning\<close> and \<^verbatim>\<open>st.success\<close>, in the order they are made.\<close>

datatype st_msg =
    NameMissing
  | NotImplemented "string option"
  | OperationFailed "string option" exn
  | CalcColMissing string
  | StartRowBeyond int nat
  | StepFailed nat "string option" exn
  | PipelineCompleted

definition ebind :: "exn + 'a \<Rightarrow> ('a \<Rightarrow> exn + 'b) \<Rightarrow> exn + 'b" where
  "ebind m f = (case m of Inl e \<Rightarrow> Inl e | Inr x \<Rightarrow> f x)"

fun sequence_exn :: "(exn + 'a) list \<Rightarrow> exn + 'a list" where
  "sequence_exn [] = Inr []"
| "sequence_exn (m # ms) = ebind m (\<lambda>x. ebind (sequence_exn ms) (\<lambda>xs. Inr (x # xs)))"

section \<open>Step definitions\<close>

text \<open>
  A step definition is a Python dict with string keys. A field is \<open>None\<close> when the key is
  absent; for the keys read with \<^verbatim>\<open>.get(key)\<close> and tested for truth it also stands for
  Python's \<^verbatim>\<open>None\<close> held under the key. For the two keys read with a default
  (\<^verbatim>\<open>if_compare_type\<close>, \<^verbatim>\<open>cond_agg_compare_type\<close>) \<open>None\<close> is absence only: a value that
  is not \<^verbatim>\<open>'Absolute Value'\<close>, Python's \<^verbatim>\<open>None\<close> included, is some \<open>Some t\<close> with another \<open>t\<close>.
\<close>

record analysis_def =
  operation_type :: "string option"
  new_col_name :: "string option"
  lookup_df_name :: "string option"
  right_on :: "string option"
  value_col :: "string option"
  left_on :: "string option"
  operator :: "string option"
  first_col :: "string option"
  second_col :: "string option"
  if_col :: "string option"
  if_operator :: "string option"
  if_compare_type :: "string option"
  if_value :: "string option"
  if_compare_col :: "string option"
  value_if_true :: "string option"
  value_if_false :: "string option"
  cond_agg_if_col :: "string option"
  cond_agg_operator :: "string option"
  cond_agg_compare_type :: "string option"
  cond_agg_function :: "string option"
  cond_agg_calc_col :: "string option"
  cond_agg_value :: "string option"
  cond_agg_compare_col :: "string option"
  output_start_row :: "int option"
  output_end_row :: "int option"
  output_target_col :: "string option"

definition empty_def :: analysis_def where
  "empty_def = \<lparr> operation_type = None, new_col_name = None, lookup_df_name = None,
     right_on = None, value_col = None, left_on = None, operator = None, first_col = None,
     second_col = None, if_col = None, if_operator = None, if_compare_type = None,
     if_value = None, if_compare_col = None, value_if_true = None, value_if_false = None,
     cond_agg_if_col = None, cond_agg_operator = None, cond_agg_compare_type = None,
     cond_agg_function = None, cond_agg_calc_col = None, cond_agg_value = None,
     cond_agg_compare_col = None, output_start_row = None, output_end_row = None,
     output_target_col = None \<rparr>"

text \<open>\<^verbatim>\<open>analysis_def[key]\<close>: a missing key raises KeyError.\<close>

definition subscript :: "string \<Rightarrow> 'a option \<Rightarrow> exn + 'a" where
  "subscript key field = (case field of None \<Rightarrow> Inl (KeyError key) | Some v \<Rightarrow> Inr v)"

text \<open>Python truthiness of an optional string and of an optional integer.\<close>

definition truthy :: "string option \<Rightarrow> bool" where
  "truthy x = (case x of None \<Rightarrow> False | Some s \<Rightarrow> s \<noteq> [])"

definition truthy_int :: "int option \<Rightarrow> bool" where
  "truthy_int x = (case x of None \<Rightarrow> False | Some n \<Rightarrow> n \<noteq> 0)"

section \<open>The runtime\<close>

text \<open>
  What the claims do not depend on is taken as a parameter: Python's \<^verbatim>\<open>float(s)\<close>
  (\<open>None\<close> for ValueError), the cast of one value to Float64 with \<^verbatim>\<open>strict=False\<close>
  (\<open>None\<close> for null), the four IEEE-754 operations, the comparison of two values
  (\<open>None\<close> for null), the reductions sum, mean, min and max followed by \<^verbatim>\<open>.item()\<close>, and
  the cast that \<^verbatim>\<open>when/then/otherwise\<close> applies to both branches to bring them to a common
  dtype (an error when polars finds none). The two branches are given by their values.
\<close>

datatype cmp_op = Eq | Ne | Gt | Lt | Ge | Le

record 'f runtime =
  rt_float :: "string \<Rightarrow> 'f option"
  rt_cast :: "'f val \<Rightarrow> 'f option"
  rt_add :: "'f \<Rightarrow> 'f \<Rightarrow> 'f"
  rt_sub :: "'f \<Rightarrow> 'f \<Rightarrow> 'f"
  rt_mul :: "'f \<Rightarrow> 'f \<Rightarrow> 'f"
  rt_div :: "'f \<Rightarrow> 'f \<Rightarrow> 'f"
  rt_compare :: "cmp_op \<Rightarrow> 'f val \<Rightarrow> 'f val \<Rightarrow> exn + bool option"
  rt_reduce :: "string \<Rightarrow> 'f val list \<Rightarrow> exn + 'f val"
  rt_common :: "'f val list \<Rightarrow> 'f val list \<Rightarrow> exn + ('f val \<Rightarrow> 'f val)"

text \<open>A cast leaves null as it is.\<close>

definition cast_value :: "('f val \<Rightarrow> 'f val) \<Rightarrow> 'f val \<Rightarrow> 'f val" where
  "cast_value cast v = (case v of Null \<Rightarrow> Null | _ \<Rightarrow> cast v)"

section \<open>DataFrame operations\<close>

text \<open>\<^verbatim>\<open>pl.col(name)\<close> evaluated on a frame.\<close>

definition get_column :: "'f table \<Rightarrow> string \<Rightarrow> exn + 'f val list" where
  "get_column df name =
     (case map_of df name of None \<Rightarrow> Inl (ColumnNotFoundError name) | Some vs \<Rightarrow> Inr vs)"

text \<open>
  \<^verbatim>\<open>df.with_columns(expr.alias(name))\<close>, the values of the expression given: a column of
  that name is replaced where it stands, a new one is appended.
\<close>

definition with_columns :: "'f table \<Rightarrow> string \<Rightarrow> 'f val list \<Rightarrow> 'f table" where
  "with_columns df name vs =
     (if name \<in> set (columns df)
      then map (\<lambda>c. if fst c = name then (name, vs) else c) df
      else df @ [(name, vs)])"

text \<open>
  A literal is broadcast to the height of the frame; on a frame without any column it
  gives one row.
\<close>

definition lit :: "'f table \<Rightarrow> 'f val \<Rightarrow> 'f val list" where
  "lit df v = replicate (if df = [] then 1 else height df) v"

text \<open>\<^verbatim>\<open>df.filter(mask)\<close> keeps the rows whose mask is true; a null mask drops the row.\<close>

definition filter_rows :: "'f table \<Rightarrow> bool option list \<Rightarrow> 'f table" where
  "filter_rows df keep =
     map (\<lambda>c. (fst c, map fst (filter (\<lambda>p. snd p = Some True) (zip (snd c) keep)))) df"

text \<open>\<^verbatim>\<open>df.select(names)\<close>; a name given twice is an error.\<close>

fun first_duplicate :: "string list \<Rightarrow> string" where
  "first_duplicate [] = []"
| "first_duplicate (n # ns) = (if n \<in> set ns then n else first_duplicate ns)"

definition select :: "'f table \<Rightarrow> string list \<Rightarrow> exn + 'f table" where
  "select df names =
     ebind (sequence_exn (map (\<lambda>n. ebind (get_column df n) (\<lambda>vs. Inr (n, vs))) names))
       (\<lambda>cs. if distinct names then Inr cs
              else Inl (DuplicateError (first_duplicate names)))"

text \<open>
  \<^verbatim>\<open>df.join(other, left_on=l, right_on=r, how='left')\<close>. Every left row is kept, in order,
  once per matching right row and once with nulls when there is none; a null key matches
  nothing. The right key column is dropped; another right column whose name is already a
  column of the left frame gets the suffix \<^verbatim>\<open>_right\<close>.
\<close>

definition matches :: "'f val list \<Rightarrow> 'f val \<Rightarrow> 'a list \<Rightarrow> 'a list" where
  "matches rk k vs = map snd (filter (\<lambda>p. k \<noteq> Null \<and> fst p = k) (zip rk vs))"

definition fanout :: "'f val list \<Rightarrow> 'f val \<Rightarrow> nat" where
  "fanout rk k = (let n = length (matches rk k rk) in if n = 0 then 1 else n)"

definition left_values :: "'f val list \<Rightarrow> 'f val list \<Rightarrow> 'f val list \<Rightarrow> 'f val list" where
  "left_values lk rk vs = concat (map (\<lambda>p. replicate (fanout rk (snd p)) (fst p)) (zip vs lk))"

definition right_values :: "'f val list \<Rightarrow> 'f val list \<Rightarrow> 'f val list \<Rightarrow> 'f val list" where
  "right_values lk rk vs =
     concat (map (\<lambda>k. let ms = matches rk k vs in if ms = [] then [Null] else ms) lk)"

definition join_left :: "'f table \<Rightarrow> 'f table \<Rightarrow> string \<Rightarrow> string \<Rightarrow> exn + 'f table" where
  "join_left df other l r =
     ebind (get_column df l) (\<lambda>lk.
     ebind (get_column other r) (\<lambda>rk.
       let left = map (\<lambda>c. (fst c, left_values lk rk (snd c))) df;
           right = map (\<lambda>c. (if fst c \<in> set (columns df) then fst c @ ''_right'' else fst c,
                              right_values lk rk (snd c)))
                     (filter (\<lambda>c. fst c \<noteq> r) other)
       in if distinct (columns (left @ right)) then Inr (left @ right)
          else Inl (DuplicateError (concat (columns right)))))"

text \<open>\<^verbatim>\<open>df.rename({old: new})\<close>.\<close>

definition rename :: "'f table \<Rightarrow> string \<Rightarrow> string \<Rightarrow> exn + 'f table" where
  "rename df old new =
     (if old \<notin> set (columns df) then Inl (ColumnNotFoundError old)
      else let df' = map (\<lambda>c. (if fst c = old then new else fst c, snd c)) df
           in if distinct (columns df') then Inr df' else Inl (DuplicateError new))"

section \<open>The step evaluators\<close>

text \<open>\<^verbatim>\<open>apply_vlookup\<close>: a left join with the two selected columns of the lookup table.\<close>

definition apply_vlookup ::
  "'f table \<Rightarrow> analysis_def \<Rightarrow> (string \<Rightarrow> 'f table option) \<Rightarrow> exn + 'f table" where
  "apply_vlookup main_df d all_dfs =
     ebind (subscript ''lookup_df_name'' (lookup_df_name d)) (\<lambda>name.
     ebind (subscript name (all_dfs name)) (\<lambda>lookup_df.
     ebind (subscript ''new_col_name'' (new_col_name d)) (\<lambda>new.
     ebind (subscript ''right_on'' (right_on d)) (\<lambda>r.
     ebind (subscript ''value_col'' (value_col d)) (\<lambda>v.
     ebind (select lookup_df [r, v]) (\<lambda>lookup_subset.
     ebind (subscript ''left_on'' (left_on d)) (\<lambda>l.
     ebind (join_left main_df lookup_subset l r) (\<lambda>result_df.
     rename result_df v new))))))))"

text \<open>\<^verbatim>\<open>apply_math\<close>: both columns cast to Float64, nulls propagate.\<close>

definition math_op :: "'f runtime \<Rightarrow> string \<Rightarrow> exn + ('f \<Rightarrow> 'f \<Rightarrow> 'f)" where
  "math_op rt op =
     (if op = ''+'' then Inr (rt_add rt)
      else if op = ''-'' then Inr (rt_sub rt)
      else if op = ''*'' then Inr (rt_mul rt)
      else if op = ''/'' then Inr (rt_div rt)
      else Inl (ValueError (''Unsupported operator: '' @ op)))"

definition binary :: "'f runtime \<Rightarrow> ('f \<Rightarrow> 'f \<Rightarrow> 'f) \<Rightarrow> 'f val \<Rightarrow> 'f val \<Rightarrow> 'f val" where
  "binary rt f a b =
     (case rt_cast rt a of None \<Rightarrow> Null
      | Some x \<Rightarrow> (case rt_cast rt b of None \<Rightarrow> Null | Some y \<Rightarrow> FloatV (f x y)))"

definition apply_math :: "'f runtime \<Rightarrow> 'f table \<Rightarrow> analysis_def \<Rightarrow> exn + 'f table" where
  "apply_math rt main_df d =
     ebind (subscript ''new_col_name'' (new_col_name d)) (\<lambda>new.
     ebind (subscript ''operator'' (operator d)) (\<lambda>op.
     ebind (subscript ''first_col'' (first_col d)) (\<lambda>c1.
     ebind (subscript ''second_col'' (second_col d)) (\<lambda>c2.
     ebind (math_op rt op) (\<lambda>f.
     ebind (get_column main_df c1) (\<lambda>xs.
     ebind (get_column main_df c2) (\<lambda>ys.
     Inr (with_columns main_df new (map (\<lambda>p. binary rt f (fst p) (snd p)) (zip xs ys))))))))))"

text \<open>\<^verbatim>\<open>_attempt_cast\<close>: the literal typed by the user, as a float when it parses as one.\<close>

definition attempt_cast :: "'f runtime \<Rightarrow> string \<Rightarrow> 'f val" where
  "attempt_cast rt value_str =
     (case rt_float rt value_str of Some x \<Rightarrow> FloatV x | None \<Rightarrow> StrV value_str)"

text \<open>
  The chain of \<^verbatim>\<open>if op == ...\<close> that builds the condition, the same in
  \<^verbatim>\<open>apply_if_condition\<close> and \<^verbatim>\<open>apply_conditional_agg\<close>.
\<close>

definition comparison :: "string \<Rightarrow> exn + cmp_op" where
  "comparison op =
     (if op = ''=='' then Inr Eq
      else if op = ''!='' then Inr Ne
      else if op = ''>'' then Inr Gt
      else if op = ''<'' then Inr Lt
      else if op = ''>='' then Inr Ge
      else if op = ''<='' then Inr Le
      else Inl (ValueError (''Unsupported operator: '' @ op)))"

text \<open>The right-hand side of a condition: a literal, or \<^verbatim>\<open>pl.col\<close> of another column.\<close>

datatype 'f operand = Literal "'f val" | Column string

text \<open>The condition evaluated on a frame, row by row.\<close>

definition eval_condition ::
  "'f runtime \<Rightarrow> 'f table \<Rightarrow> string \<Rightarrow> cmp_op \<Rightarrow> 'f operand \<Rightarrow> exn + bool option list" where
  "eval_condition rt df c cmp compare_val =
     ebind (get_column df c) (\<lambda>xs.
     ebind (case compare_val of Literal v \<Rightarrow> Inr (replicate (length xs) v)
            | Column c' \<Rightarrow> get_column df c') (\<lambda>ys.
     sequence_exn (map (\<lambda>p. rt_compare rt cmp (fst p) (snd p)) (zip xs ys))))"

definition apply_if_condition :: "'f runtime \<Rightarrow> 'f table \<Rightarrow> analysis_def \<Rightarrow> exn + 'f table" where
  "apply_if_condition rt main_df d =
     ebind (subscript ''new_col_name'' (new_col_name d)) (\<lambda>new.
     ebind (subscript ''if_col'' (if_col d)) (\<lambda>c.
     ebind (subscript ''if_operator'' (if_operator d)) (\<lambda>op.
     let compare_type = (case if_compare_type d of None \<Rightarrow> ''Absolute Value'' | Some t \<Rightarrow> t) in
     ebind (if compare_type = ''Absolute Value''
            then ebind (subscript ''if_value'' (if_value d)) (\<lambda>s. Inr (Literal (attempt_cast rt s)))
            else ebind (subscript ''if_compare_col'' (if_compare_col d)) (\<lambda>c'. Inr (Column c')))
       (\<lambda>compare_val.
     ebind (subscript ''value_if_true'' (value_if_true d)) (\<lambda>t.
     ebind (subscript ''value_if_false'' (value_if_false d)) (\<lambda>f.
     let true_val = attempt_cast rt t; false_val = attempt_cast rt f in
     ebind (comparison op) (\<lambda>cmp.
     ebind (eval_condition rt main_df c cmp compare_val) (\<lambda>condition.
     ebind (rt_common rt [true_val] [false_val]) (\<lambda>cast.
     Inr (with_columns main_df new
            (map (\<lambda>m. if m = Some True then cast_value cast true_val
                      else cast_value cast false_val) condition)))))))))))"

text \<open>
  \<^verbatim>\<open>apply_conditional_agg\<close>, step 3: the aggregation over the filtered rows. \<open>Inr (Inl m)\<close> is
  the early \<^verbatim>\<open>return main_df\<close> after \<^verbatim>\<open>st.error\<close>; \<open>Inr (Inr v)\<close> is \<^verbatim>\<open>result_value\<close>.
\<close>

definition aggregate ::
  "'f runtime \<Rightarrow> 'f table \<Rightarrow> string \<Rightarrow> string option \<Rightarrow> exn + (st_msg + 'f val)" where
  "aggregate rt filtered_df agg_func calc_col_name =
     (if height filtered_df > 0 then
        if agg_func = ''Count'' then Inr (Inr (IntV (int (height filtered_df))))
        else (case (if truthy calc_col_name then calc_col_name else None) of
                Some calc_col \<Rightarrow>
                  if agg_func = ''Sum'' \<or> agg_func = ''Average'' \<or> agg_func = ''Min''
                     \<or> agg_func = ''Max''
                  then ebind (get_column filtered_df calc_col) (\<lambda>vs.
                       ebind (rt_reduce rt agg_func vs) (\<lambda>v. Inr (Inr v)))
                  else Inr (Inr (IntV 0))
              | None \<Rightarrow> Inr (Inl (CalcColMissing agg_func)))
      else Inr (Inr (IntV 0)))"

text \<open>
  Step 4: the output location. Without a start row the result is broadcast into the
  column \<^verbatim>\<open>new_col_name\<close>; with one, it is written into the rows of the range by
  \<^verbatim>\<open>when/then/otherwise\<close>, which casts the result and the column to their common dtype.
\<close>

definition output_location ::
  "'f runtime \<Rightarrow> 'f table \<Rightarrow> analysis_def \<Rightarrow> string \<Rightarrow> 'f val
     \<Rightarrow> exn + ('f table \<times> st_msg list)" where
  "output_location rt main_df d new result_value =
     (case (if truthy_int (output_start_row d) then output_start_row d else None) of
        None \<Rightarrow> Inr (with_columns main_df new (lit main_df result_value), [])
      | Some start_row \<Rightarrow>
          let start_idx = start_row - 1;
              end_idx = (if truthy_int (output_end_row d)
                         then (case output_end_row d of Some end_row \<Rightarrow> end_row - 1
                               | None \<Rightarrow> start_idx)
                         else start_idx)
          in if start_idx \<ge> int (height main_df)
             then Inr (main_df, [StartRowBeyond start_row (height main_df)])
             else
               let output_col_name = (if truthy (output_target_col d)
                                      then (case output_target_col d of Some t \<Rightarrow> t | None \<Rightarrow> new)
                                      else new);
                   row_mask = map (\<lambda>i. int i \<ge> start_idx \<and> int i \<le> end_idx) [0..<height main_df];
                   main_df' = (if output_col_name \<notin> set (columns main_df)
                               then with_columns main_df output_col_name (lit main_df Null)
                               else main_df)
               in ebind (get_column main_df' output_col_name) (\<lambda>old.
                  ebind (rt_common rt [result_value] old) (\<lambda>cast.
                  Inr (with_columns main_df' output_col_name
                         (map (\<lambda>p. if fst p then cast_value cast result_value
                                   else cast_value cast (snd p)) (zip row_mask old)), []))))"

text \<open>
  Steps 1 and 2 (lines 109 to 130): the condition and the filtered frame. The key
  \<^verbatim>\<open>cond_agg_function\<close> is read at line 112, between the operator and the value compared
  with, so its KeyError has its place here.
\<close>

definition filtered_df :: "'f runtime \<Rightarrow> 'f table \<Rightarrow> analysis_def \<Rightarrow> exn + 'f table" where
  "filtered_df rt main_df d =
     ebind (subscript ''cond_agg_if_col'' (cond_agg_if_col d)) (\<lambda>c.
     ebind (subscript ''cond_agg_operator'' (cond_agg_operator d)) (\<lambda>op.
     let compare_type = (case cond_agg_compare_type d of None \<Rightarrow> ''Absolute Value''
                         | Some t \<Rightarrow> t) in
     ebind (subscript ''cond_agg_function'' (cond_agg_function d)) (\<lambda>agg_func.
     ebind (if compare_type = ''Absolute Value''
            then ebind (subscript ''cond_agg_value'' (cond_agg_value d))
                   (\<lambda>s. Inr (Literal (attempt_cast rt s)))
            else ebind (subscript ''cond_agg_compare_col'' (cond_agg_compare_col d))
                   (\<lambda>c'. Inr (Column c')))
       (\<lambda>compare_val.
     ebind (comparison op) (\<lambda>cmp.
     ebind (eval_condition rt main_df c cmp compare_val) (\<lambda>condition.
     Inr (filter_rows main_df condition)))))))"

text \<open>\<^verbatim>\<open>apply_conditional_agg\<close>: the name, the filter, the aggregation, the output.\<close>

definition apply_conditional_agg ::
  "'f runtime \<Rightarrow> 'f table \<Rightarrow> analysis_def \<Rightarrow> exn + ('f table \<times> st_msg list)" where
  "apply_conditional_agg rt main_df d =
     ebind (subscript ''new_col_name'' (new_col_name d)) (\<lambda>new.
     ebind (filtered_df rt main_df d) (\<lambda>filtered.
     ebind (subscript ''cond_agg_function'' (cond_agg_function d)) (\<lambda>agg_func.
     ebind (aggregate rt filtered agg_func (cond_agg_calc_col d)) (\<lambda>r.
     case r of Inl m \<Rightarrow> Inr (main_df, [m])
     | Inr result_value \<Rightarrow> output_location rt main_df d new result_value))))"

section \<open>The dispatcher and the pipeline loop\<close>

text \<open>The body of the \<^verbatim>\<open>try\<close> of \<^verbatim>\<open>apply_analysis\<close>.\<close>

definition dispatch ::
  "'f runtime \<Rightarrow> 'f table \<Rightarrow> analysis_def \<Rightarrow> (string \<Rightarrow> 'f table option)
     \<Rightarrow> exn + ('f table \<times> st_msg list)" where
  "dispatch rt main_df d all_dfs =
     (let op_type = operation_type d in
      if op_type = Some ''VLOOKUP''
        then ebind (apply_vlookup main_df d all_dfs) (\<lambda>t. Inr (t, []))
      else if op_type = Some ''MATH''
        then ebind (apply_math rt main_df d) (\<lambda>t. Inr (t, []))
      else if op_type = Some ''IF''
        then ebind (apply_if_condition rt main_df d) (\<lambda>t. Inr (t, []))
      else if op_type = Some ''CONDITIONAL_AGG''
        then apply_conditional_agg rt main_df d
      else Inr (main_df, [NotImplemented op_type]))"

text \<open>
  \<^verbatim>\<open>apply_analysis\<close>: the name check, then the dispatch under \<^verbatim>\<open>except Exception\<close>. The
  result type keeps a place for an exception that would reach the caller.
\<close>

definition apply_analysis ::
  "'f runtime \<Rightarrow> 'f table \<Rightarrow> analysis_def \<Rightarrow> (string \<Rightarrow> 'f table option)
     \<Rightarrow> exn + ('f table \<times> st_msg list)" where
  "apply_analysis rt main_df d all_dfs =
     (let op_type = operation_type d in
      if \<not> truthy (new_col_name d) then Inr (main_df, [NameMissing])
      else (case dispatch rt main_df d all_dfs of
              Inl e \<Rightarrow> Inr (main_df, [OperationFailed op_type e])
            | Inr r \<Rightarrow> Inr r))"

text \<open>
  The loop of \<^verbatim>\<open>app.py\<close> over the step definitions: the working table, the flag
  \<^verbatim>\<open>error_occured\<close> and the messages. \<open>i\<close> is the index of \<^verbatim>\<open>enumerate\<close>.
\<close>

fun run_steps ::
  "'f runtime \<Rightarrow> nat \<Rightarrow> 'f table \<Rightarrow> analysis_def list \<Rightarrow> (string \<Rightarrow> 'f table option)
     \<Rightarrow> 'f table \<times> bool \<times> st_msg list" where
  "run_steps rt i temp_df [] all_dfs = (temp_df, False, [])"
| "run_steps rt i temp_df (step_def # rest) all_dfs =
     (case apply_analysis rt temp_df step_def all_dfs of
        Inl e \<Rightarrow> (temp_df, True, [StepFailed (i + 1) (new_col_name step_def) e])
      | Inr r \<Rightarrow>
          (case run_steps rt (i + 1) (fst r) rest all_dfs of
             (t, err, msgs) \<Rightarrow> (t, err, snd r @ msgs)))"

text \<open>
  The handler of the button: the preview is replaced only when no error occurred.
  The result is the new \<^verbatim>\<open>preview_df\<close> and the messages shown.
\<close>

definition run_pipeline ::
  "'f runtime \<Rightarrow> 'f table \<Rightarrow> analysis_def list \<Rightarrow> (string \<Rightarrow> 'f table option)
     \<Rightarrow> 'f table option \<Rightarrow> 'f table option \<times> st_msg list" where
  "run_pipeline rt main_df defs all_dfs preview_df =
     (case run_steps rt 0 main_df defs all_dfs of
        (temp_df, error_occured, msgs) \<Rightarrow>
          if \<not> error_occured then (Some temp_df, msgs @ [PipelineCompleted])
          else (preview_df, msgs))"

section \<open>A runtime for concrete tables\<close>

text \<open>
  To evaluate the model on the tables of the examples, the runtime is instantiated:
  floats are taken as reals, which is exact on the small integers those tables hold.
  \<open>demo_float\<close> agrees with Python's \<^verbatim>\<open>float\<close> on plain digit strings and on the strings
  Python rejects; the examples use no other spelling of a number.
\<close>

fun digits_value :: "nat \<Rightarrow> string \<Rightarrow> nat option" where
  "digits_value acc [] = Some acc"
| "digits_value acc (c # cs) =
     (if c \<in> set ''0123456789''
      then digits_value (10 * acc + (of_char c - 48)) cs else None)"

definition demo_float :: "string \<Rightarrow> real option" where
  "demo_float s = (if s = [] then None else map_option real (digits_value 0 s))"

fun demo_cast :: "real val \<Rightarrow> real option" where
  "demo_cast Null = None"
| "demo_cast (IntV i) = Some (real_of_int i)"
| "demo_cast (FloatV x) = Some x"
| "demo_cast (StrV s) = demo_float s"
| "demo_cast (BoolV b) = Some (if b then 1 else 0)"

fun holds :: "cmp_op \<Rightarrow> 'a::linorder \<Rightarrow> 'a \<Rightarrow> bool" where
  "holds Eq a b = (a = b)"
| "holds Ne a b = (a \<noteq> b)"
| "holds Gt a b = (a > b)"
| "holds Lt a b = (a < b)"
| "holds Ge a b = (a \<ge> b)"
| "holds Le a b = (a \<le> b)"

text \<open>Numbers compare as numbers, a string with a number is an error of the library.\<close>

fun demo_compare :: "cmp_op \<Rightarrow> real val \<Rightarrow> real val \<Rightarrow> exn + bool option" where
  "demo_compare cmp Null b = Inr None"
| "demo_compare cmp a Null = Inr None"
| "demo_compare cmp (IntV a) (IntV b) = Inr (Some (holds cmp a b))"
| "demo_compare cmp (IntV a) (FloatV b) = Inr (Some (holds cmp (real_of_int a) b))"
| "demo_compare cmp (FloatV a) (IntV b) = Inr (Some (holds cmp a (real_of_int b)))"
| "demo_compare cmp (FloatV a) (FloatV b) = Inr (Some (holds cmp a b))"
| "demo_compare cmp (StrV a) (StrV b) =
     (if cmp = Eq then Inr (Some (a = b)) else if cmp = Ne then Inr (Some (a \<noteq> b))
      else Inr (Some (holds cmp (map (of_char :: char \<Rightarrow> nat) a) (map of_char b))))"
| "demo_compare cmp a b = Inl (LibraryError ''cannot compare'')"

text \<open>The reductions over a column of integers; nulls are skipped.\<close>

fun ints_of :: "real val list \<Rightarrow> int list option" where
  "ints_of [] = Some []"
| "ints_of (Null # vs) = ints_of vs"
| "ints_of (IntV i # vs) = map_option (\<lambda>is. i # is) (ints_of vs)"
| "ints_of (v # vs) = None"

definition demo_reduce :: "string \<Rightarrow> real val list \<Rightarrow> exn + real val" where
  "demo_reduce agg_func vs =
     (case ints_of vs of
        None \<Rightarrow> Inl (LibraryError ''reduction'')
      | Some is \<Rightarrow>
          if agg_func = ''Sum'' then Inr (IntV (sum_list is))
          else if is = [] then Inr Null
          else if agg_func = ''Average''
            then Inr (FloatV (real_of_int (sum_list is) / real (length is)))
          else if agg_func = ''Min'' then Inr (IntV (fold min is (hd is)))
          else Inr (IntV (fold max is (hd is))))"

text \<open>
  The common dtype of two branches. The dtype of a branch is read off its first value
  that is not null; integers and floats meet in the floats, and a branch of nulls takes
  the dtype of the other. No other pair of dtypes occurs in the examples; the instance
  reports them as an error of the library.
\<close>

datatype dtype = NullT | IntT | FloatT | StrT | BoolT

fun dtype_of :: "real val \<Rightarrow> dtype" where
  "dtype_of Null = NullT"
| "dtype_of (IntV i) = IntT"
| "dtype_of (FloatV x) = FloatT"
| "dtype_of (StrV s) = StrT"
| "dtype_of (BoolV b) = BoolT"

fun column_dtype :: "real val list \<Rightarrow> dtype" where
  "column_dtype [] = NullT"
| "column_dtype (Null # vs) = column_dtype vs"
| "column_dtype (v # vs) = dtype_of v"

fun to_float :: "real val \<Rightarrow> real val" where
  "to_float (IntV i) = FloatV (real_of_int i)"
| "to_float v = v"

definition demo_common :: "real val list \<Rightarrow> real val list \<Rightarrow> exn + (real val \<Rightarrow> real val)" where
  "demo_common xs ys =
     (let s = column_dtype xs; t = column_dtype ys
      in if s = t \<or> s = NullT \<or> t = NullT then Inr (\<lambda>v. v)
         else if (s = IntT \<and> t = FloatT) \<or> (s = FloatT \<and> t = IntT) then Inr to_float
         else Inl (LibraryError ''failed to determine supertype''))"

definition demo_rt :: "real runtime" where
  "demo_rt = \<lparr> rt_float = demo_float, rt_cast = demo_cast, rt_add = (+), rt_sub = (-),
     rt_mul = (*), rt_div = (/), rt_compare = demo_compare, rt_reduce = demo_reduce,
     rt_common = demo_common \<rparr>"

section \<open>Example tables and steps\<close>

text \<open>The tables and steps of the scenarios, used to evaluate the model.\<close>

definition ids_table :: "real table" where
  "ids_table = [(''id'', [IntV 1, IntV 2, IntV 3])]"

definition base_table :: "real table" where
  "base_table = [(''id'', [IntV 1, IntV 2, IntV 3]), (''val'', [IntV 10, IntV 20, IntV 30])]"

definition ref_table :: "real table" where
  "ref_table = [(''rid'', [IntV 2, IntV 3]), (''name'', [StrV ''b'', StrV ''c''])]"

definition registry :: "string \<Rightarrow> real table option" where
  "registry = Map.empty(''ref'' \<mapsto> ref_table)"

definition lookup_step :: analysis_def where
  "lookup_step = empty_def\<lparr> operation_type := Some ''VLOOKUP'', new_col_name := Some ''name'',
     left_on := Some ''id'', lookup_df_name := Some ''ref'', right_on := Some ''rid'',
     value_col := Some ''name'' \<rparr>"

definition sum_step :: analysis_def where
  "sum_step = empty_def\<lparr> operation_type := Some ''CONDITIONAL_AGG'',
     new_col_name := Some ''total'', cond_agg_if_col := Some ''id'',
     cond_agg_operator := Some ''>'', cond_agg_value := Some ''1'',
     cond_agg_function := Some ''Sum'', cond_agg_calc_col := Some ''val'' \<rparr>"

definition bad_math :: analysis_def where
  "bad_math = empty_def\<lparr> operation_type := Some ''MATH'', new_col_name := Some ''s'',
     first_col := Some ''id'', second_col := Some ''val'', operator := Some ''%'' \<rparr>"

definition no_match_step :: analysis_def where
  "no_match_step = sum_step\<lparr> cond_agg_value := Some ''7'' \<rparr>"

definition no_calc_col_step :: analysis_def where
  "no_calc_col_step = sum_step\<lparr> cond_agg_calc_col := None \<rparr>"

definition no_match_no_calc_col_step :: analysis_def where
  "no_match_no_calc_col_step =
     sum_step\<lparr> cond_agg_value := Some ''7'', cond_agg_calc_col := None \<rparr>"

definition beyond_step :: analysis_def where
  "beyond_step = sum_step\<lparr> output_start_row := Some 5 \<rparr>"

definition range_step :: analysis_def where
  "range_step = sum_step\<lparr> output_start_row := Some 2, output_end_row := Some 3 \<rparr>"

definition dup_ref_table :: "real table" where
  "dup_ref_table = [(''rid'', [IntV 2, IntV 2]), (''name'', [StrV ''b'', StrV ''c''])]"

definition dup_registry :: "string \<Rightarrow> real table option" where
  "dup_registry = Map.empty(''ref'' \<mapsto> dup_ref_table)"

definition named_table :: "real table" where
  "named_table = [(''id'', [IntV 1, IntV 2, IntV 3]),
                  (''name'', [StrV ''x'', StrV ''y'', StrV ''z''])]"

definition label_step :: analysis_def where
  "label_step = lookup_step\<lparr> new_col_name := Some ''label'' \<rparr>"

text \<open>
  A workbook with the two sheets, the first being the main sheet, and a lookup step as
  the form leaves it when only its name is typed: the first sheet as lookup table, its
  first column both as key and as column to return.
\<close>

definition sheets :: "string \<Rightarrow> real table option" where
  "sheets = Map.empty(''main'' \<mapsto> base_table, ''ref'' \<mapsto> ref_table)"

definition default_lookup :: analysis_def where
  "default_lookup = empty_def\<lparr> operation_type := Some ''VLOOKUP'', new_col_name := Some ''x'',
     left_on := Some ''id'', lookup_df_name := Some ''main'', right_on := Some ''id'',
     value_col := Some ''id'' \<rparr>"

text \<open>The average of \<^verbatim>\<open>val\<close> over the rows with \<^verbatim>\<open>id > 1\<close>, written into row 2 of \<^verbatim>\<open>val\<close>.\<close>

definition average_step :: analysis_def where
  "average_step = sum_step\<lparr> cond_agg_function := Some ''Average'',
     output_start_row := Some 2, output_target_col := Some ''val'' \<rparr>"





section \<open>Basic facts\<close>

lemma ebind_Inr_iff: "ebind m f = Inr y \<longleftrightarrow> (\<exists>x. m = Inr x \<and> f x = Inr y)"
  by (cases m) (auto simp: ebind_def)

lemma ebind_Inr [simp]: "ebind (Inr x) f = f x"
  by (simp add: ebind_def)

lemma ebind_Inl [simp]: "ebind (Inl e) f = Inl e"
  by (simp add: ebind_def)

lemma subscript_Inr_iff: "subscript key field = Inr v \<longleftrightarrow> field = Some v"
  by (cases field) (auto simp: subscript_def)

lemma subscript_Some [simp]: "subscript key (Some v) = Inr v"
  by (simp add: subscript_def)

lemma get_column_nonempty: "get_column df c = Inr vs \<Longrightarrow> df \<noteq> []"
  by (auto simp: get_column_def)

lemma eval_condition_nonempty: "eval_condition rt df c cmp cv = Inr m \<Longrightarrow> df \<noteq> []"
  by (auto simp: eval_condition_def ebind_Inr_iff dest: get_column_nonempty)

lemma filtered_df_Inr:
  assumes "filtered_df rt main_df d = Inr fdf"
  shows "main_df \<noteq> []" and "\<exists>f. cond_agg_function d = Some f"
  using assms
  by (auto simp: filtered_df_def ebind_Inr_iff subscript_Inr_iff Let_def dest: eval_condition_nonempty)

lemma lit_nonempty: "df \<noteq> [] \<Longrightarrow> lit df v = replicate (height df) v"
  by (simp add: lit_def)

lemma get_column_with_columns_same: "get_column (with_columns df n vs) n = Inr vs"
proof -
  have "map_of (map (\<lambda>c. if fst c = n then (n, vs) else c) df) n = Some vs" if "n \<in> fst ` set df"
    using that by (induction df) auto
  moreover have "map_of (df @ [(n, vs)]) n = Some vs" if "n \<notin> fst ` set df"
    using that by (induction df) auto
  ultimately show ?thesis
    by (auto simp: get_column_def with_columns_def columns_def)
qed

lemma get_column_with_columns_other:
  "c \<noteq> n \<Longrightarrow> get_column (with_columns df n vs) c = get_column df c"
proof -
  assume ne: "c \<noteq> n"
  have "map_of (map (\<lambda>x. if fst x = n then (n, vs) else x) df) c = map_of df c"
    using ne by (induction df) auto
  moreover have "map_of (df @ [(n, vs)]) c = map_of df c"
    using ne by (induction df) auto
  ultimately show ?thesis
    by (simp add: get_column_def with_columns_def)
qed

lemma columns_with_columns:
  "columns (with_columns df n vs) = (if n \<in> set (columns df) then columns df else columns df @ [n])"
proof -
  have "map fst (map (\<lambda>c. if fst c = n then (n, vs) else c) df) = map fst df"
    by (induction df) auto
  then show ?thesis by (simp add: with_columns_def columns_def)
qed

lemma aggregate_empty: "height fdf = 0 \<Longrightarrow> aggregate rt fdf f calc = Inr (Inr (IntV 0))"
  by (simp add: aggregate_def)

lemma aggregate_missing_calc_col:
  "0 < height fdf \<Longrightarrow> f \<noteq> ''Count'' \<Longrightarrow> \<not> truthy calc
     \<Longrightarrow> aggregate rt fdf f calc = Inr (Inl (CalcColMissing f))"
  by (simp add: aggregate_def)

lemma output_location_broadcast:
  "\<not> truthy_int (output_start_row d) \<Longrightarrow>
     output_location rt main_df d new v = Inr (with_columns main_df new (lit main_df v), [])"
  by (simp add: output_location_def)

lemma output_location_beyond:
  "output_start_row d = Some s \<Longrightarrow> int (height main_df) < s \<Longrightarrow>
     output_location rt main_df d new v = Inr (main_df, [StartRowBeyond s (height main_df)])"
  by (auto simp: output_location_def truthy_int_def Let_def)


lemma get_column_Inr_iff: "get_column df c = Inr vs \<longleftrightarrow> map_of df c = Some vs"
  by (auto simp: get_column_def split: option.splits)

lemma wf_table_column_length:
  "wf_table df \<Longrightarrow> map_of df c = Some vs \<Longrightarrow> length vs = height df"
  by (auto simp: wf_table_def list_all_iff dest!: map_of_SomeD)

lemma map_of_columns: "map_of df c = None \<longleftrightarrow> c \<notin> set (columns df)"
  by (simp add: map_of_eq_None_iff columns_def)

lemma cast_value_Null [simp]: "cast_value cast Null = Null"
  by (simp add: cast_value_def)



lemma run_steps_continue:
  "apply_analysis rt temp_df d all_dfs = Inr (t, ms) \<Longrightarrow>
     run_steps rt i temp_df (d # rest) all_dfs =
       (case run_steps rt (i + 1) t rest all_dfs of (t', err, msgs) \<Rightarrow> (t', err, ms @ msgs))"
  by simp

subsection \<open>The join\<close>

lemma select_pair:
  "select df [r, v] = Inr sub \<longleftrightarrow>
     (\<exists>rk vv. get_column df r = Inr rk \<and> get_column df v = Inr vv \<and> r \<noteq> v
        \<and> sub = [(r, rk), (v, vv)])"
  by (auto simp: select_def ebind_Inr_iff)

lemma join_left_pair:
  assumes "r \<noteq> v" and "join_left df [(r, rk), (v, vv)] l r = Inr j"
  shows "\<exists>lk. get_column df l = Inr lk
        \<and> j = map (\<lambda>c. (fst c, left_values lk rk (snd c))) df
              @ [(if v \<in> set (columns df) then v @ ''_right'' else v, right_values lk rk vv)]"
proof -
  have r: "get_column [(r, rk), (v, vv)] r = Inr rk"
    by (simp add: get_column_def)
  have f: "filter (\<lambda>c. fst c \<noteq> r) [(r, rk), (v, vv)] = [(v, vv)]"
    using assms(1) by simp
  from assms(2) show ?thesis
    unfolding join_left_def ebind_Inr_iff r f Let_def
    by (auto split: if_splits)
qed

lemma rename_Inr:
  "rename df old new = Inr t \<Longrightarrow> t = map (\<lambda>c. (if fst c = old then new else fst c, snd c)) df"
  by (auto simp: rename_def Let_def split: if_splits)

lemma apply_vlookup_Inr:
  assumes "apply_vlookup main_df d all_dfs = Inr t"
  shows "\<exists>name lookup_df new r v l lk rk vv.
     lookup_df_name d = Some name \<and> all_dfs name = Some lookup_df \<and> new_col_name d = Some new
     \<and> right_on d = Some r \<and> value_col d = Some v \<and> left_on d = Some l
     \<and> get_column main_df l = Inr lk \<and> get_column lookup_df r = Inr rk
     \<and> get_column lookup_df v = Inr vv
     \<and> t = map (\<lambda>c. (if fst c = v then new else fst c, snd c))
             (map (\<lambda>c. (fst c, left_values lk rk (snd c))) main_df
              @ [(if v \<in> set (columns main_df) then v @ ''_right'' else v,
                  right_values lk rk vv)])"
proof -
  from assms obtain name lookup_df new r v sub l j where
    k: "lookup_df_name d = Some name" "all_dfs name = Some lookup_df" "new_col_name d = Some new"
       "right_on d = Some r" "value_col d = Some v" "left_on d = Some l"
    and sub: "select lookup_df [r, v] = Inr sub"
    and j: "join_left main_df sub l r = Inr j"
    and t: "rename j v new = Inr t"
    unfolding apply_vlookup_def ebind_Inr_iff subscript_Inr_iff by blast
  from sub obtain rk vv where c: "get_column lookup_df r = Inr rk" "get_column lookup_df v = Inr vv"
    and ne: "r \<noteq> v" and sub': "sub = [(r, rk), (v, vv)]"
    unfolding select_pair by blast
  from j obtain lk where lk: "get_column main_df l = Inr lk"
    and j': "j = map (\<lambda>c. (fst c, left_values lk rk (snd c))) main_df
              @ [(if v \<in> set (columns main_df) then v @ ''_right'' else v, right_values lk rk vv)]"
    unfolding sub' using join_left_pair [OF ne] by blast
  from rename_Inr [OF t] k c lk j' show ?thesis by blast
qed

lemma length_matches:
  "length vs = length rk \<Longrightarrow>
     length (matches rk k vs) = (if k = Null then 0 else count_list rk k)"
  unfolding matches_def
  by (induction vs rk rule: list_induct2) auto

lemma fanout_count:
  "fanout rk k = (if k = Null \<or> k \<notin> set rk then 1 else count_list rk k)"
  using count_list_0_iff [of rk k] by (auto simp: fanout_def length_matches Let_def)

lemma length_left_values:
  "length vs = length lk \<Longrightarrow> length (left_values lk rk vs) = sum_list (map (fanout rk) lk)"
  unfolding left_values_def
  by (induction vs lk rule: list_induct2) (auto simp: length_concat)

lemma sum_list_ones: "(\<forall>x\<in>set xs. f x = (1::nat)) \<Longrightarrow> sum_list (map f xs) = length xs"
  by (induction xs) auto

section \<open>Properties of the dispatcher\<close>

text \<open>
  C8. A step definition whose \<^verbatim>\<open>new_col_name\<close> is absent or the empty string is rejected
  before the dispatch: whatever the operation type, \<open>apply_analysis\<close> returns the input
  table as it is, and the only message is the request for a name. No evaluator has run,
  since each of them would have left its own result or its own message.
\<close>

theorem apply_analysis_name_required:
  assumes "new_col_name d = None \<or> new_col_name d = Some []"
  shows "apply_analysis rt main_df d all_dfs = Inr (main_df, [NameMissing])"
  using assms by (auto simp: apply_analysis_def truthy_def)

theorem apply_analysis_name_required_witness:
  "(new_col_name (lookup_step\<lparr>new_col_name := Some []\<rparr>) = None
      \<or> new_col_name (lookup_step\<lparr>new_col_name := Some []\<rparr>) = Some [])
   \<and> apply_analysis demo_rt ids_table (lookup_step\<lparr>new_col_name := Some []\<rparr>) registry
       = Inr (ids_table, [NameMissing])"
proof -
  have h: "new_col_name (lookup_step\<lparr>new_col_name := Some []\<rparr>) = None
      \<or> new_col_name (lookup_step\<lparr>new_col_name := Some []\<rparr>) = Some []"
    by simp
  from apply_analysis_name_required [OF h] h show ?thesis by blast
qed

text \<open>
  C9. \<open>apply_analysis\<close> never hands an exception to its caller: it always returns a table
  with messages, and when an evaluator raises (the dispatch ends in \<open>Inl e\<close>), the table
  returned is the input table.
\<close>

theorem apply_analysis_catches:
  "(\<exists>t msgs. apply_analysis rt main_df d all_dfs = Inr (t, msgs)) \<and>
   (dispatch rt main_df d all_dfs = Inl e \<longrightarrow>
      (\<exists>msgs. apply_analysis rt main_df d all_dfs = Inr (main_df, msgs)))"
  by (cases "dispatch rt main_df d all_dfs") (auto simp: apply_analysis_def)

lemma bad_math_raises:
  "dispatch demo_rt base_table bad_math registry = Inl (ValueError ''Unsupported operator: %'')"
  by code_simp

theorem apply_analysis_catches_witness:
  "dispatch demo_rt base_table bad_math registry = Inl (ValueError ''Unsupported operator: %'')
   \<and> (\<exists>msgs. apply_analysis demo_rt base_table bad_math registry = Inr (base_table, msgs))"
  using apply_analysis_catches [of demo_rt base_table bad_math registry
      "ValueError ''Unsupported operator: %''"] bad_math_raises
  by blast

section \<open>The pipeline loop\<close>

text \<open>
  Since \<open>apply_analysis\<close> always returns, the handler of the loop for a failing step is
  never entered: no run sets \<^verbatim>\<open>error_occured\<close>, and every run ends with the message of
  success and a new preview.
\<close>

lemma apply_analysis_Inr: "\<exists>r. apply_analysis rt main_df d all_dfs = Inr r"
  by (cases "dispatch rt main_df d all_dfs") (auto simp: apply_analysis_def)

lemma run_steps_no_error: "\<not> fst (snd (run_steps rt i temp_df defs all_dfs))"
proof (induction defs arbitrary: i temp_df)
  case Nil
  show ?case by simp
next
  case (Cons d defs)
  obtain r where r: "apply_analysis rt temp_df d all_dfs = Inr r"
    using apply_analysis_Inr by blast
  obtain t err msgs where s: "run_steps rt (i + 1) (fst r) defs all_dfs = (t, err, msgs)"
    by (cases "run_steps rt (i + 1) (fst r) defs all_dfs") auto
  from Cons [of "i + 1" "fst r"] s show ?case
    by (simp add: r)
qed

lemma run_pipeline_always_completes:
  "\<exists>t msgs. run_pipeline rt main_df defs all_dfs preview_df = (Some t, msgs @ [PipelineCompleted])"
proof -
  obtain t err msgs where s: "run_steps rt 0 main_df defs all_dfs = (t, err, msgs)"
    by (cases "run_steps rt 0 main_df defs all_dfs") auto
  with run_steps_no_error [of rt 0 main_df defs all_dfs] have "\<not> err" by simp
  with s show ?thesis by (simp add: run_pipeline_def)
qed

text \<open>
  C1. The claim: when the first of two steps fails, the runner stops, the second step is
  not applied and step 1 is reported. The code at a failing first step that the form
  produces: the lookup step left at its defaults selects the key column twice, so
  \<^verbatim>\<open>select\<close> raises DuplicateError; \<open>apply_analysis\<close> catches it, the loop goes on with
  the unchanged table, the second lookup is applied, no step index is reported and the
  run ends with the message of success.
\<close>

theorem failed_step_does_not_stop_pipeline:
  "apply_vlookup base_table default_lookup sheets = Inl (DuplicateError ''id'')
   \<and> run_pipeline demo_rt base_table [default_lookup, lookup_step] sheets None =
       (Some (base_table @ [(''name'', [Null, StrV ''b'', StrV ''c''])]),
        [OperationFailed (Some ''VLOOKUP'') (DuplicateError ''id''), PipelineCompleted])"
  by code_simp

section \<open>Conditional aggregation\<close>

text \<open>
  C5. When the condition of a CONDITIONAL_AGG step selects no row and the step gives no
  start row, the result value is the integer 0 and the step returns the table with the
  column \<^verbatim>\<open>new_col_name\<close> holding 0 in every row, without any message.
\<close>

theorem empty_filter_broadcasts_zero:
  assumes "new_col_name d = Some new"
    and "filtered_df rt main_df d = Inr fdf"
    and "height fdf = 0"
    and "\<not> truthy_int (output_start_row d)"
  shows "apply_conditional_agg rt main_df d
           = Inr (with_columns main_df new (replicate (height main_df) (IntV 0)), [])
         \<and> get_column (with_columns main_df new (replicate (height main_df) (IntV 0))) new
           = Inr (replicate (height main_df) (IntV 0))
         \<and> (operation_type d = Some ''CONDITIONAL_AGG'' \<and> new \<noteq> [] \<longrightarrow>
              apply_analysis rt main_df d all_dfs
                = Inr (with_columns main_df new (replicate (height main_df) (IntV 0)), []))"
proof -
  obtain f where f: "cond_agg_function d = Some f"
    using filtered_df_Inr(2) [OF assms(2)] by blast
  have "apply_conditional_agg rt main_df d = output_location rt main_df d new (IntV 0)"
    by (simp add: apply_conditional_agg_def assms(1,2) f aggregate_empty [OF assms(3)])
  also have "\<dots> = Inr (with_columns main_df new (lit main_df (IntV 0)), [])"
    by (rule output_location_broadcast [OF assms(4)])
  finally have run: "apply_conditional_agg rt main_df d
      = Inr (with_columns main_df new (replicate (height main_df) (IntV 0)), [])"
    by (simp add: lit_nonempty [OF filtered_df_Inr(1) [OF assms(2)]])
  have "apply_analysis rt main_df d all_dfs
      = Inr (with_columns main_df new (replicate (height main_df) (IntV 0)), [])"
    if "operation_type d = Some ''CONDITIONAL_AGG''" and "new \<noteq> []"
    using that by (simp add: apply_analysis_def dispatch_def truthy_def assms(1) run)
  with run show ?thesis
    by (simp add: get_column_with_columns_same)
qed

lemma no_match_filtered:
  "filtered_df demo_rt base_table no_match_step = Inr [(''id'', []), (''val'', [])]"
  by code_simp

theorem empty_filter_broadcasts_zero_witness:
  "apply_conditional_agg demo_rt base_table no_match_step
     = Inr ([(''id'', [IntV 1, IntV 2, IntV 3]), (''val'', [IntV 10, IntV 20, IntV 30]),
             (''total'', [IntV 0, IntV 0, IntV 0])], [])
   \<and> apply_analysis demo_rt base_table no_match_step registry
     = Inr ([(''id'', [IntV 1, IntV 2, IntV 3]), (''val'', [IntV 10, IntV 20, IntV 30]),
             (''total'', [IntV 0, IntV 0, IntV 0])], [])"
proof -
  have 1: "new_col_name no_match_step = Some ''total''" by code_simp
  have 3: "height [(''id'', []), (''val'', [])] = 0" by (simp add: height_def)
  have 4: "\<not> truthy_int (output_start_row no_match_step)" by code_simp
  have 5: "with_columns base_table ''total'' (replicate (height base_table) (IntV 0)) =
     [(''id'', [IntV 1, IntV 2, IntV 3]), (''val'', [IntV 10, IntV 20, IntV 30]),
      (''total'', [IntV 0, IntV 0, IntV 0])]" by code_simp
  have 6: "operation_type no_match_step = Some ''CONDITIONAL_AGG'' \<and> ''total'' \<noteq> []"
    by code_simp
  from empty_filter_broadcasts_zero [OF 1 no_match_filtered 3 4, of registry] 5 6
  show ?thesis by simp
qed





text \<open>
  C2, as stated, fails: a Sum step without \<^verbatim>\<open>cond_agg_calc_col\<close> whose condition selects
  no row is not a no-op; it adds the column \<^verbatim>\<open>total\<close> of zeros.
\<close>

theorem missing_calc_col_not_always_noop:
  "cond_agg_function no_match_no_calc_col_step = Some ''Sum''
   \<and> cond_agg_calc_col no_match_no_calc_col_step = None
   \<and> apply_analysis demo_rt base_table no_match_no_calc_col_step registry
       = Inr (base_table @ [(''total'', [IntV 0, IntV 0, IntV 0])], [])
   \<and> base_table @ [(''total'', [IntV 0, IntV 0, IntV 0])] \<noteq> base_table"
  by code_simp

text \<open>
  C2, amended. For a CONDITIONAL_AGG step whose condition evaluates to the filtered frame
  \<open>fdf\<close>: if \<^verbatim>\<open>cond_agg_calc_col\<close> is absent while the function is not Count and \<open>fdf\<close> has
  a row, or if the aggregation yields a value and the start row is beyond the row count,
  then the error is caught locally: \<open>apply_conditional_agg\<close> returns normally, with the
  input table unchanged and the one message of that error. \<open>apply_analysis\<close> returns the
  same table, and the loop goes on with the steps that follow, on that table.
\<close>

theorem cond_agg_local_errors_are_noops:
  assumes "operation_type d = Some ''CONDITIONAL_AGG''"
    and "new_col_name d = Some new"
    and "filtered_df rt main_df d = Inr fdf"
    and "cond_agg_function d = Some f"
    and "(f \<noteq> ''Count'' \<and> \<not> truthy (cond_agg_calc_col d) \<and> 0 < height fdf
            \<and> m = CalcColMissing f)
         \<or> ((\<exists>v. aggregate rt fdf f (cond_agg_calc_col d) = Inr (Inr v))
            \<and> output_start_row d = Some s \<and> int (height main_df) < s
            \<and> m = StartRowBeyond s (height main_df))"
  shows "apply_conditional_agg rt main_df d = Inr (main_df, [m])
         \<and> apply_analysis rt main_df d all_dfs
             = Inr (main_df, [if new = [] then NameMissing else m])
         \<and> run_steps rt i main_df (d # rest) all_dfs =
             (case run_steps rt (i + 1) main_df rest all_dfs of
                (t, err, msgs) \<Rightarrow> (t, err, (if new = [] then NameMissing else m) # msgs))"
proof -
  have local: "apply_conditional_agg rt main_df d = Inr (main_df, [m])"
    using assms(5)
  proof
    assume a: "f \<noteq> ''Count'' \<and> \<not> truthy (cond_agg_calc_col d) \<and> 0 < height fdf
        \<and> m = CalcColMissing f"
    then have "aggregate rt fdf f (cond_agg_calc_col d) = Inr (Inl (CalcColMissing f))"
      by (simp add: aggregate_def)
    with a show ?thesis
      by (simp add: apply_conditional_agg_def assms(2,3,4))
  next
    assume b: "(\<exists>v. aggregate rt fdf f (cond_agg_calc_col d) = Inr (Inr v))
        \<and> output_start_row d = Some s \<and> int (height main_df) < s
        \<and> m = StartRowBeyond s (height main_df)"
    then obtain v where "aggregate rt fdf f (cond_agg_calc_col d) = Inr (Inr v)" by blast
    with b show ?thesis
      by (simp add: apply_conditional_agg_def assms(2,3,4) output_location_def
          truthy_int_def Let_def)
  qed
  have outer: "apply_analysis rt main_df d all_dfs
      = Inr (main_df, [if new = [] then NameMissing else m])"
    by (simp add: apply_analysis_def dispatch_def truthy_def assms(1,2) local)
  from local outer run_steps_continue [OF outer, of i rest] show ?thesis by simp
qed

lemma no_calc_col_filtered:
  "filtered_df demo_rt base_table no_calc_col_step
     = Inr [(''id'', [IntV 2, IntV 3]), (''val'', [IntV 20, IntV 30])]"
  by code_simp

lemma beyond_filtered:
  "filtered_df demo_rt base_table beyond_step
     = Inr [(''id'', [IntV 2, IntV 3]), (''val'', [IntV 20, IntV 30])]"
  by code_simp

theorem cond_agg_local_errors_are_noops_witness:
  "apply_conditional_agg demo_rt base_table no_calc_col_step
     = Inr (base_table, [CalcColMissing ''Sum''])
   \<and> apply_analysis demo_rt base_table no_calc_col_step registry
     = Inr (base_table, [CalcColMissing ''Sum''])
   \<and> run_steps demo_rt 0 base_table [no_calc_col_step, lookup_step] registry =
       (case run_steps demo_rt (0 + 1) base_table [lookup_step] registry of
          (t, err, msgs) \<Rightarrow> (t, err, CalcColMissing ''Sum'' # msgs))
   \<and> apply_conditional_agg demo_rt base_table beyond_step
     = Inr (base_table, [StartRowBeyond 5 3])
   \<and> apply_analysis demo_rt base_table beyond_step registry
     = Inr (base_table, [StartRowBeyond 5 3])
   \<and> run_steps demo_rt 0 base_table [beyond_step, lookup_step] registry =
       (case run_steps demo_rt (0 + 1) base_table [lookup_step] registry of
          (t, err, msgs) \<Rightarrow> (t, err, StartRowBeyond 5 3 # msgs))"
proof -
  have h: "height base_table = 3" by code_simp
  have n: "''total'' \<noteq> []" by simp
  have 1: "operation_type no_calc_col_step = Some ''CONDITIONAL_AGG''" by code_simp
  have 2: "new_col_name no_calc_col_step = Some ''total''" by code_simp
  have 4: "cond_agg_function no_calc_col_step = Some ''Sum''" by code_simp
  have "\<not> truthy (cond_agg_calc_col no_calc_col_step)" by code_simp
  then have 5: "(''Sum'' \<noteq> ''Count'' \<and> \<not> truthy (cond_agg_calc_col no_calc_col_step)
        \<and> 0 < height [(''id'', [IntV 2, IntV 3 :: real val]), (''val'', [IntV 20, IntV 30])]
        \<and> CalcColMissing ''Sum'' = CalcColMissing ''Sum'')
      \<or> ((\<exists>v. aggregate demo_rt [(''id'', [IntV 2, IntV 3]), (''val'', [IntV 20, IntV 30])]
                 ''Sum'' (cond_agg_calc_col no_calc_col_step) = Inr (Inr v))
         \<and> output_start_row no_calc_col_step = Some 0 \<and> int (height base_table) < 0
         \<and> CalcColMissing ''Sum'' = StartRowBeyond 0 (height base_table))"
    by (simp add: height_def)
  have 6: "operation_type beyond_step = Some ''CONDITIONAL_AGG''" by code_simp
  have 7: "new_col_name beyond_step = Some ''total''" by code_simp
  have 9: "cond_agg_function beyond_step = Some ''Sum''" by code_simp
  have a: "aggregate demo_rt [(''id'', [IntV 2, IntV 3]), (''val'', [IntV 20, IntV 30])]
      ''Sum'' (cond_agg_calc_col beyond_step) = Inr (Inr (IntV 50))" by code_simp
  have s: "output_start_row beyond_step = Some 5" by code_simp
  from a s have 10: "(''Sum'' \<noteq> ''Count'' \<and> \<not> truthy (cond_agg_calc_col beyond_step)
        \<and> 0 < height [(''id'', [IntV 2, IntV 3 :: real val]), (''val'', [IntV 20, IntV 30])]
        \<and> StartRowBeyond 5 3 = CalcColMissing ''Sum'')
      \<or> ((\<exists>v. aggregate demo_rt [(''id'', [IntV 2, IntV 3]), (''val'', [IntV 20, IntV 30])]
                 ''Sum'' (cond_agg_calc_col beyond_step) = Inr (Inr v))
         \<and> output_start_row beyond_step = Some 5 \<and> int (height base_table) < 5
         \<and> StartRowBeyond 5 3 = StartRowBeyond 5 (height base_table))"
    by (simp add: h)
  have direct: "apply_conditional_agg demo_rt base_table no_calc_col_step
        = Inr (base_table, [CalcColMissing ''Sum''])"
    "apply_conditional_agg demo_rt base_table beyond_step
        = Inr (base_table, [StartRowBeyond 5 3])"
    by code_simp+
  from cond_agg_local_errors_are_noops [OF 1 2 no_calc_col_filtered 4 5,
      of registry 0 "[lookup_step]"]
    cond_agg_local_errors_are_noops [OF 6 7 beyond_filtered 9 10,
      of registry 0 "[lookup_step]"] n direct
  show ?thesis by simp
qed

text \<open>
  C4, as stated, fails for a target column that exists with another dtype: the average
  25.0 written into row 2 of the integer column \<^verbatim>\<open>val\<close> turns the whole column into
  floats, so rows 1 and 3 do not keep their prior values 10 and 30 as they were.
\<close>

theorem targeted_output_casts_prior_values:
  "get_column base_table ''val'' = Inr [IntV 10, IntV 20, IntV 30]
   \<and> apply_conditional_agg demo_rt base_table average_step
       = Inr ([(''id'', [IntV 1, IntV 2, IntV 3]),
               (''val'', [FloatV 10, FloatV 25, FloatV 30])], [])
   \<and> FloatV 10 \<noteq> (IntV 10 :: real val)"
  by code_simp

text \<open>
  C4, amended. A CONDITIONAL_AGG step that computes the value \<open>v\<close>, with a start row \<open>s\<close>
  that is given (not 0) and not beyond the row count: the target column is
  \<^verbatim>\<open>output_target_col\<close> when it is given and not empty, else \<^verbatim>\<open>new_col_name\<close>; the last
  row \<open>e\<close> of the range is \<^verbatim>\<open>output_end_row\<close> when it is given and not 0, else \<open>s\<close>. When
  the value and the target column have a common dtype, the result has the columns of the
  input, with the target appended if it was not there; in the target column, row \<open>i\<close>
  (counted from 0) holds \<open>v\<close> when \<open>s \<le> i + 1 \<le> e\<close> and its prior value otherwise, both
  cast to the common dtype; a row outside the range of a target column that did not
  exist holds null; every other column is unchanged.
\<close>

theorem targeted_output_overwrites_range:
  assumes "wf_table main_df"
    and "new_col_name d = Some new"
    and "filtered_df rt main_df d = Inr fdf"
    and "cond_agg_function d = Some f"
    and "aggregate rt fdf f (cond_agg_calc_col d) = Inr (Inr v)"
    and "output_start_row d = Some s" and "s \<noteq> 0" and "s \<le> int (height main_df)"
    and "target = (case output_target_col d of Some t \<Rightarrow> if t = [] then new else t | None \<Rightarrow> new)"
    and "e = (case output_end_row d of Some e' \<Rightarrow> if e' = 0 then s else e' | None \<Rightarrow> s)"
    and "prior = (case map_of main_df target of Some old \<Rightarrow> old
                  | None \<Rightarrow> replicate (height main_df) Null)"
    and "rt_common rt [v] prior = Inr cast"
  shows "\<exists>t vs. apply_conditional_agg rt main_df d = Inr (t, [])
           \<and> columns t = (if target \<in> set (columns main_df) then columns main_df
                          else columns main_df @ [target])
           \<and> get_column t target = Inr vs \<and> length vs = height main_df
           \<and> (\<forall>i < height main_df.
                 vs ! i = (if s \<le> int i + 1 \<and> int i + 1 \<le> e then cast_value cast v
                           else cast_value cast (prior ! i)))
           \<and> (target \<notin> set (columns main_df) \<longrightarrow>
                (\<forall>i < height main_df. \<not> (s \<le> int i + 1 \<and> int i + 1 \<le> e) \<longrightarrow> vs ! i = Null))
           \<and> (\<forall>c. c \<noteq> target \<longrightarrow> get_column t c = get_column main_df c)"
proof -
  define main_df' where "main_df' = (if target \<notin> set (columns main_df)
      then with_columns main_df target (lit main_df Null) else main_df)"
  define vs where "vs = map (\<lambda>p. if fst p then cast_value cast v else cast_value cast (snd p))
      (zip (map (\<lambda>i. s \<le> int i + 1 \<and> int i + 1 \<le> e) [0..<height main_df]) prior)"
  have ne: "main_df \<noteq> []" by (rule filtered_df_Inr(1) [OF assms(3)])
  have eq: "apply_conditional_agg rt main_df d = output_location rt main_df d new v"
    by (simp add: apply_conditional_agg_def assms(2-5))
  have placed: "output_location rt main_df d new v =
      ebind (get_column main_df' target) (\<lambda>old.
      ebind (rt_common rt [v] old) (\<lambda>cast.
        Inr (with_columns main_df' target
               (map (\<lambda>p. if fst p then cast_value cast v else cast_value cast (snd p))
                  (zip (map (\<lambda>i. s \<le> int i + 1 \<and> int i + 1 \<le> e) [0..<height main_df]) old)),
             [])))"
    using assms(6,7,8)
    unfolding assms(9,10) main_df'_def output_location_def
    by (auto simp: truthy_int_def truthy_def Let_def diff_le_eq add1_zle_eq
        split: option.splits)
  have old: "get_column main_df' target = Inr prior"
  proof (cases "target \<in> set (columns main_df)")
    case True
    then obtain old where "map_of main_df target = Some old"
      using map_of_columns [of main_df target] by auto
    then show ?thesis using True by (simp add: main_df'_def assms(11) get_column_def)
  next
    case False
    then have "map_of main_df target = None" by (simp add: map_of_columns)
    then show ?thesis
      using False
      by (simp add: main_df'_def assms(11) get_column_with_columns_same lit_nonempty [OF ne])
  qed
  have len: "length prior = height main_df"
    by (cases "map_of main_df target")
      (simp_all add: assms(11) wf_table_column_length [OF assms(1)])
  have run: "apply_conditional_agg rt main_df d = Inr (with_columns main_df' target vs, [])"
    by (simp add: eq placed old assms(12) vs_def)
  have cols: "columns (with_columns main_df' target vs)
      = (if target \<in> set (columns main_df) then columns main_df else columns main_df @ [target])"
    by (simp add: main_df'_def columns_with_columns)
  have col: "get_column (with_columns main_df' target vs) target = Inr vs"
    by (rule get_column_with_columns_same)
  have lvs: "length vs = height main_df" by (simp add: vs_def len)
  have nth: "\<forall>i < height main_df.
      vs ! i = (if s \<le> int i + 1 \<and> int i + 1 \<le> e then cast_value cast v
                else cast_value cast (prior ! i))"
    unfolding vs_def by (simp add: len)
  have other: "\<forall>c. c \<noteq> target \<longrightarrow>
      get_column (with_columns main_df' target vs) c = get_column main_df c"
    by (simp add: main_df'_def get_column_with_columns_other)
  have fresh: "\<forall>i < height main_df. \<not> (s \<le> int i + 1 \<and> int i + 1 \<le> e) \<longrightarrow> vs ! i = Null"
    if "target \<notin> set (columns main_df)"
  proof -
    from that have "prior = replicate (height main_df) Null"
      by (simp add: assms(11) map_of_columns [THEN iffD2])
    with nth show ?thesis by simp
  qed
  from run cols col lvs nth other fresh show ?thesis by blast
qed

lemma range_step_filtered:
  "filtered_df demo_rt base_table range_step
     = Inr [(''id'', [IntV 2, IntV 3]), (''val'', [IntV 20, IntV 30])]"
  by code_simp

lemma average_step_filtered:
  "filtered_df demo_rt base_table average_step
     = Inr [(''id'', [IntV 2, IntV 3]), (''val'', [IntV 20, IntV 30])]"
  by code_simp

theorem targeted_output_overwrites_range_witness:
  "apply_conditional_agg demo_rt base_table range_step
     = Inr (base_table @ [(''total'', [Null, IntV 50, IntV 50])], [])
   \<and> apply_conditional_agg demo_rt base_table average_step
     = Inr ([(''id'', [IntV 1, IntV 2, IntV 3]),
             (''val'', [FloatV 10, FloatV 25, FloatV 30])], [])
   \<and> (\<exists>t vs. apply_conditional_agg demo_rt base_table range_step = Inr (t, [])
      \<and> columns t = [''id'', ''val'', ''total'']
      \<and> get_column t ''total'' = Inr vs \<and> length vs = 3
      \<and> vs ! 0 = Null \<and> vs ! 1 = IntV 50 \<and> vs ! 2 = IntV 50
      \<and> get_column t ''id'' = get_column base_table ''id''
      \<and> get_column t ''val'' = get_column base_table ''val'')
   \<and> (\<exists>t vs. apply_conditional_agg demo_rt base_table average_step = Inr (t, [])
      \<and> columns t = [''id'', ''val'']
      \<and> get_column t ''val'' = Inr vs \<and> length vs = 3
      \<and> vs ! 0 = FloatV 10 \<and> vs ! 1 = FloatV 25 \<and> vs ! 2 = FloatV 30
      \<and> get_column t ''id'' = get_column base_table ''id'')"
proof -
  have w: "wf_table base_table" by code_simp
  have h: "height base_table = 3" by code_simp
  have cols: "columns base_table = [''id'', ''val'']" by code_simp
  have 2: "new_col_name range_step = Some ''total''" by code_simp
  have 4: "cond_agg_function range_step = Some ''Sum''" by code_simp
  have 5: "aggregate demo_rt [(''id'', [IntV 2, IntV 3]), (''val'', [IntV 20, IntV 30])]
      ''Sum'' (cond_agg_calc_col range_step) = Inr (Inr (IntV 50))" by code_simp
  have 6: "output_start_row range_step = Some 2" by code_simp
  have 7: "(2::int) \<noteq> 0" by simp
  have 8: "2 \<le> int (height base_table)" by (simp add: h)
  have 9: "''total'' = (case output_target_col range_step of
      Some t \<Rightarrow> if t = [] then ''total'' else t | None \<Rightarrow> ''total'')" by code_simp
  have 10: "3 = (case output_end_row range_step of
      Some e' \<Rightarrow> if e' = 0 then 2 else e' | None \<Rightarrow> 2)" by code_simp
  have 11: "replicate 3 Null = (case map_of base_table ''total'' of
      Some old \<Rightarrow> old | None \<Rightarrow> replicate (height base_table) Null)" by code_simp
  have 12: "rt_common demo_rt [IntV 50] (replicate 3 Null) = Inr (\<lambda>v. v)"
    by (simp add: demo_rt_def demo_common_def numeral_3_eq_3)
  from targeted_output_overwrites_range [OF w 2 range_step_filtered 4 5 6 7 8 9 10 11 12]
  obtain t vs where run: "apply_conditional_agg demo_rt base_table range_step = Inr (t, [])"
    and tc: "columns t = (if ''total'' \<in> set (columns base_table) then columns base_table
                            else columns base_table @ [''total''])"
    and col: "get_column t ''total'' = Inr vs" and len: "length vs = height base_table"
    and nth: "\<forall>i < height base_table.
                vs ! i = (if 2 \<le> int i + 1 \<and> int i + 1 \<le> 3 then cast_value (\<lambda>v. v) (IntV 50)
                          else cast_value (\<lambda>v. v) (replicate 3 Null ! i))"
    and other: "\<forall>c. c \<noteq> ''total'' \<longrightarrow> get_column t c = get_column base_table c"
    by blast
  from nth have "vs ! 0 = Null" and "vs ! 1 = IntV 50" and "vs ! 2 = IntV 50"
    by (simp_all add: h cast_value_def)
  with run tc col len other have first:
    "\<exists>t vs. apply_conditional_agg demo_rt base_table range_step = Inr (t, [])
      \<and> columns t = [''id'', ''val'', ''total'']
      \<and> get_column t ''total'' = Inr vs \<and> length vs = 3
      \<and> vs ! 0 = Null \<and> vs ! 1 = IntV 50 \<and> vs ! 2 = IntV 50
      \<and> get_column t ''id'' = get_column base_table ''id''
      \<and> get_column t ''val'' = get_column base_table ''val''"
    by (auto simp: h cols)
  have a2: "new_col_name average_step = Some ''total''" by code_simp
  have a4: "cond_agg_function average_step = Some ''Average''" by code_simp
  have a5: "aggregate demo_rt [(''id'', [IntV 2, IntV 3]), (''val'', [IntV 20, IntV 30])]
      ''Average'' (cond_agg_calc_col average_step) = Inr (Inr (FloatV 25))" by code_simp
  have a6: "output_start_row average_step = Some 2" by code_simp
  have a9: "''val'' = (case output_target_col average_step of
      Some t \<Rightarrow> if t = [] then ''total'' else t | None \<Rightarrow> ''total'')" by code_simp
  have a10: "2 = (case output_end_row average_step of
      Some e' \<Rightarrow> if e' = 0 then 2 else e' | None \<Rightarrow> 2)" by code_simp
  have a11: "[IntV 10, IntV 20, IntV 30] = (case map_of base_table ''val'' of
      Some old \<Rightarrow> old | None \<Rightarrow> replicate (height base_table) Null)" by code_simp
  have a12: "rt_common demo_rt [FloatV 25] [IntV 10, IntV 20, IntV 30] = Inr to_float"
    by (simp add: demo_rt_def demo_common_def)
  from targeted_output_overwrites_range
    [OF w a2 average_step_filtered a4 a5 a6 7 8 a9 a10 a11 a12]
  obtain u us where run': "apply_conditional_agg demo_rt base_table average_step = Inr (u, [])"
    and uc: "columns u = (if ''val'' \<in> set (columns base_table) then columns base_table
                            else columns base_table @ [''val''])"
    and col': "get_column u ''val'' = Inr us" and len': "length us = height base_table"
    and nth': "\<forall>i < height base_table.
                us ! i = (if 2 \<le> int i + 1 \<and> int i + 1 \<le> 2 then cast_value to_float (FloatV 25)
                          else cast_value to_float ([IntV 10, IntV 20, IntV 30] ! i))"
    and other': "\<forall>c. c \<noteq> ''val'' \<longrightarrow> get_column u c = get_column base_table c"
    by blast
  from nth' have "us ! 0 = FloatV 10" and "us ! 1 = FloatV 25" and "us ! 2 = FloatV 30"
    by (simp_all add: h cast_value_def)
  with run' uc col' len' other' have second:
    "\<exists>t vs. apply_conditional_agg demo_rt base_table average_step = Inr (t, [])
      \<and> columns t = [''id'', ''val'']
      \<and> get_column t ''val'' = Inr vs \<and> length vs = 3
      \<and> vs ! 0 = FloatV 10 \<and> vs ! 1 = FloatV 25 \<and> vs ! 2 = FloatV 30
      \<and> get_column t ''id'' = get_column base_table ''id''"
    by (auto simp: h cols)
  have direct: "apply_conditional_agg demo_rt base_table range_step
        = Inr (base_table @ [(''total'', [Null, IntV 50, IntV 50])], [])"
    "apply_conditional_agg demo_rt base_table average_step
        = Inr ([(''id'', [IntV 1, IntV 2, IntV 3]),
                (''val'', [FloatV 10, FloatV 25, FloatV 30])], [])"
    by code_simp+
  from first second direct show ?thesis by blast
qed

section \<open>Lookup\<close>

subsection \<open>Rows of a join\<close>

lemma append_empty_columns:
  "length as = length bs \<Longrightarrow> \<forall>a\<in>set as. a = [] \<Longrightarrow> map (\<lambda>q. fst q @ snd q) (zip as bs) = bs"
  by (induction as bs rule: list_induct2) auto

lemma rows_of_cols_append:
  "length as = length bs \<Longrightarrow> \<forall>a\<in>set as. length a = m \<Longrightarrow>
     rows_of_cols (m + p) (map (\<lambda>q. fst q @ snd q) (zip as bs))
       = rows_of_cols m as @ rows_of_cols p bs"
proof (induction m arbitrary: as)
  case 0
  then show ?case by (simp add: append_empty_columns)
next
  case (Suc m)
  have hd: "map hd (map (\<lambda>q. fst q @ snd q) (zip as bs)) = map hd as"
    using Suc.prems by (induction as bs rule: list_induct2) (auto simp: hd_append)
  have tl: "map tl (map (\<lambda>q. fst q @ snd q) (zip as bs))
      = map (\<lambda>q. fst q @ snd q) (zip (map tl as) bs)"
    using Suc.prems
    by (induction as bs rule: list_induct2) (auto simp: tl_append split: list.splits)
  have ih: "rows_of_cols (m + p) (map (\<lambda>q. fst q @ snd q) (zip (map tl as) bs))
      = rows_of_cols m (map tl as) @ rows_of_cols p bs"
    by (rule Suc.IH) (use Suc.prems in simp_all)
  let ?X = "map (\<lambda>q. fst q @ snd q) (zip as bs)"
  have "rows_of_cols (Suc m + p) ?X = map hd ?X # rows_of_cols (m + p) (map tl ?X)"
    by simp
  also have "\<dots> = map hd as
      # rows_of_cols (m + p) (map (\<lambda>q. fst q @ snd q) (zip (map tl as) bs))"
    by (simp only: hd tl)
  also have "\<dots> = map hd as # (rows_of_cols m (map tl as) @ rows_of_cols p bs)"
    by (simp only: ih)
  also have "\<dots> = rows_of_cols (Suc m) as @ rows_of_cols p bs"
    by simp
  finally show ?case .
qed

lemma rows_of_block:
  "rows_of_cols (length ys) (map (replicate (length ys)) xs @ [ys]) = map (\<lambda>y. xs @ [y]) ys"
proof (induction ys)
  case Nil
  show ?case by simp
next
  case (Cons y ys)
  then show ?case by (simp add: comp_def)
qed

text \<open>
  Columns built block by block, one block per left row, read row by row: every left row
  is paired with each of the values imported for its key.
\<close>

lemma rows_of_join:
  assumes "\<forall>c\<in>set cols. length c = length lk"
  shows "rows_of_cols (sum_list (map (\<lambda>k. length (g k)) lk))
           (map (\<lambda>c. concat (map (\<lambda>p. replicate (length (g (snd p))) (fst p)) (zip c lk))) cols
            @ [concat (map g lk)])
         = concat (map (\<lambda>p. map (\<lambda>x. fst p @ [x]) (g (snd p)))
                     (zip (rows_of_cols (length lk) cols) lk))"
  using assms
proof (induction lk arbitrary: cols)
  case Nil
  show ?case by simp
next
  case (Cons k lk)
  let ?m = "length (g k)"
  let ?ex = "\<lambda>lk c. concat (map (\<lambda>p. replicate (length (g (snd p))) (fst p)) (zip c lk))"
  have split: "?ex (k # lk) c = replicate ?m (hd c) @ ?ex lk (tl c)" if "c \<in> set cols" for c
  proof -
    from that Cons.prems have "length c = Suc (length lk)" by simp
    then obtain x c' where "c = x # c'" by (cases c) auto
    then show ?thesis by simp
  qed
  have cols_eq: "map (?ex (k # lk)) cols @ [concat (map g (k # lk))]
      = map (\<lambda>q. fst q @ snd q)
          (zip (map (replicate ?m) (map hd cols) @ [g k])
               (map (?ex lk) (map tl cols) @ [concat (map g lk)]))"
  proof -
    have "map (?ex (k # lk)) cols
        = map (\<lambda>q. fst q @ snd q)
            (zip (map (replicate ?m) (map hd cols)) (map (?ex lk) (map tl cols)))"
      using split by (induction cols) auto
    then show ?thesis by simp
  qed
  have len: "\<forall>a\<in>set (map (replicate ?m) (map hd cols) @ [g k]). length a = ?m"
    by auto
  have tails: "\<forall>c\<in>set (map tl cols). length c = length lk"
    using Cons.prems by auto
  have "rows_of_cols (?m + sum_list (map (\<lambda>k. length (g k)) lk))
          (map (\<lambda>q. fst q @ snd q)
             (zip (map (replicate ?m) (map hd cols) @ [g k])
                  (map (?ex lk) (map tl cols) @ [concat (map g lk)])))
        = rows_of_cols ?m (map (replicate ?m) (map hd cols) @ [g k])
          @ rows_of_cols (sum_list (map (\<lambda>k. length (g k)) lk))
              (map (?ex lk) (map tl cols) @ [concat (map g lk)])"
    by (rule rows_of_cols_append [OF _ len]) simp
  then have "rows_of_cols (sum_list (map (\<lambda>k. length (g k)) (k # lk)))
          (map (?ex (k # lk)) cols @ [concat (map g (k # lk))])
        = rows_of_cols ?m (map (replicate ?m) (map hd cols) @ [g k])
          @ rows_of_cols (sum_list (map (\<lambda>k. length (g k)) lk))
              (map (?ex lk) (map tl cols) @ [concat (map g lk)])"
    unfolding cols_eq by simp
  also have "\<dots> = map (\<lambda>x. map hd cols @ [x]) (g k)
          @ concat (map (\<lambda>p. map (\<lambda>x. fst p @ [x]) (g (snd p)))
                      (zip (rows_of_cols (length lk) (map tl cols)) lk))"
    by (simp only: rows_of_block Cons.IH [OF tails])
  finally show ?case by simp
qed

lemma map_of_first_match:
  "map snd (filter (\<lambda>q. fst q = k) ps) = x # xs \<Longrightarrow> map_of ps k = Some x"
  by (induction ps) (auto split: if_splits)


lemma fanout_length:
  assumes "length vv = length rk"
  shows "fanout rk k = length (let ms = matches rk k vv in if ms = [] then [Null] else ms)"
proof -
  have "length (matches rk k rk) = length (matches rk k vv)"
    by (simp add: length_matches assms)
  then show ?thesis
    by (cases "matches rk k vv") (auto simp: fanout_def Let_def)
qed

text \<open>
  C3, as stated, fails: with a key that occurs twice in the lookup table, the left row
  is repeated, and the three rows of the current table become four.
\<close>

theorem lookup_fans_out_on_duplicate_keys:
  "apply_vlookup ids_table lookup_step dup_registry
     = Inr [(''id'', [IntV 1, IntV 2, IntV 2, IntV 3]),
            (''name'', [Null, StrV ''b'', StrV ''c'', Null])]
   \<and> height [(''id'', [IntV 1, IntV 2, IntV 2, IntV 3 :: real val]),
              (''name'', [Null, StrV ''b'', StrV ''c'', Null])] = 4
   \<and> height ids_table = 3"
  by code_simp

text \<open>
  C3, amended. A LOOKUP step that returns a table returns these rows: every row of the
  current table, in order, followed by the imported value, once for each row of the
  lookup table that has the key of that row, and once with null when there is none or
  the key is null. So the row count is the sum of these multiplicities. When every key
  of the current table that is not null occurs at most once in the key column of the
  lookup table, the row count equals that of the current table, and every row of the
  current table is followed by the value looked up for its key, null when there is no
  match.
\<close>

theorem lookup_row_count:
  assumes "wf_table main_df"
    and "lookup_df_name d = Some name" and "all_dfs name = Some lookup_df"
    and "wf_table lookup_df"
    and "left_on d = Some l" and "right_on d = Some r" and "value_col d = Some v"
    and "get_column main_df l = Inr lk" and "get_column lookup_df r = Inr rk"
    and "get_column lookup_df v = Inr vv"
    and "apply_vlookup main_df d all_dfs = Inr t"
  shows "rows t = concat (map (\<lambda>p. map (\<lambda>x. fst p @ [x])
                            (if snd p = Null \<or> snd p \<notin> set rk then [Null]
                             else map snd (filter (\<lambda>q. fst q = snd p) (zip rk vv))))
                       (zip (rows main_df) lk))
         \<and> height t = sum_list (map (\<lambda>k. if k = Null \<or> k \<notin> set rk then 1 else count_list rk k) lk)
         \<and> ((\<forall>k\<in>set lk. k \<noteq> Null \<longrightarrow> count_list rk k \<le> 1) \<longrightarrow>
              height t = height main_df
              \<and> rows t = map (\<lambda>p. fst p @ [if snd p = Null \<or> snd p \<notin> set rk then Null
                                          else case map_of (zip rk vv) (snd p) of
                                                 None \<Rightarrow> Null | Some x \<Rightarrow> x])
                           (zip (rows main_df) lk))"
proof -
  let ?g = "\<lambda>k. let ms = matches rk k vv in if ms = [] then [Null] else ms"
  let ?g' = "\<lambda>k. if k = Null \<or> k \<notin> set rk then [Null]
                  else map snd (filter (\<lambda>q. fst q = k) (zip rk vv))"
  let ?h = "\<lambda>k. if k = Null \<or> k \<notin> set rk then Null
                 else case map_of (zip rk vv) k of None \<Rightarrow> Null | Some x \<Rightarrow> x"
  from apply_vlookup_Inr [OF assms(11)] assms(2,3,5-10)
  obtain new where
    t: "t = map (\<lambda>c. (if fst c = v then new else fst c, snd c))
             (map (\<lambda>c. (fst c, left_values lk rk (snd c))) main_df
              @ [(if v \<in> set (columns main_df) then v @ ''_right'' else v,
                  right_values lk rk vv)])"
    by auto
  have llk: "length lk = height main_df"
    using assms(8) wf_table_column_length [OF assms(1)] by (simp add: get_column_Inr_iff)
  have lrk: "length vv = length rk"
    using assms(9,10) wf_table_column_length [OF assms(4)] by (simp add: get_column_Inr_iff)
  from assms(8) obtain c cs where main: "main_df = c # cs"
    by (cases main_df) (auto dest: get_column_nonempty)
  have lens: "\<forall>c\<in>set (map snd main_df). length c = length lk"
    using assms(1) llk by (auto simp: wf_table_def list_all_iff)
  have "length (snd c) = length lk"
    using lens by (simp add: main)
  then have h: "height t = sum_list (map (fanout rk) lk)"
    by (simp add: t main height_def length_left_values)
  have none: "matches rk k vv = [] \<longleftrightarrow> k = Null \<or> k \<notin> set rk" for k
  proof -
    have "matches rk k vv = [] \<longleftrightarrow> length (matches rk k vv) = 0" by simp
    also have "\<dots> \<longleftrightarrow> k = Null \<or> count_list rk k = 0"
      by (simp add: length_matches [OF lrk])
    finally show ?thesis by (simp add: count_list_0_iff)
  qed
  have g: "?g k = ?g' k" for k
    by (cases "k = Null \<or> k \<notin> set rk") (auto simp: Let_def none, simp add: matches_def)
  have snds: "map snd t
      = map (\<lambda>c. concat (map (\<lambda>p. replicate (length (?g (snd p))) (fst p)) (zip c lk)))
          (map snd main_df) @ [concat (map ?g lk)]"
    by (simp add: t left_values_def right_values_def fanout_length [OF lrk] comp_def)
  have "fanout rk = (\<lambda>k. length (?g k))"
    by (rule ext) (rule fanout_length [OF lrk])
  then have hg: "height t = sum_list (map (\<lambda>k. length (?g k)) lk)"
    by (simp only: h)
  have "rows t = concat (map (\<lambda>p. map (\<lambda>x. fst p @ [x]) (?g (snd p)))
                          (zip (rows_of_cols (length lk) (map snd main_df)) lk))"
    unfolding rows_def snds hg by (rule rows_of_join [OF lens])
  then have all_rows: "rows t = concat (map (\<lambda>p. map (\<lambda>x. fst p @ [x]) (?g' (snd p)))
                                        (zip (rows main_df) lk))"
    by (simp only: g rows_def llk)
  have count: "height t
      = sum_list (map (\<lambda>k. if k = Null \<or> k \<notin> set rk then 1 else count_list rk k) lk)"
    by (simp add: h fanout_count [abs_def])
  have unique: "height t = height main_df
      \<and> rows t = map (\<lambda>p. fst p @ [?h (snd p)]) (zip (rows main_df) lk)"
    if u: "\<forall>k\<in>set lk. k \<noteq> Null \<longrightarrow> count_list rk k \<le> 1"
  proof
    have "\<forall>k\<in>set lk. fanout rk k = 1"
    proof
      fix k assume "k \<in> set lk"
      with u have "k \<noteq> Null \<Longrightarrow> count_list rk k \<le> 1" by blast
      moreover have "k \<in> set rk \<Longrightarrow> count_list rk k \<noteq> 0" by (simp add: count_list_0_iff)
      ultimately show "fanout rk k = 1" by (auto simp: fanout_count)
    qed
    then show "height t = height main_df"
      by (simp add: h sum_list_ones llk)
    have one: "?g' k = [?h k]" if "k \<in> set lk" for k
    proof (cases "k = Null \<or> k \<notin> set rk")
      case True
      then show ?thesis by simp
    next
      case False
      let ?ms = "map snd (filter (\<lambda>q. fst q = k) (zip rk vv))"
      from False have ms: "?ms = matches rk k vv" by (simp add: matches_def)
      from False u that have "count_list rk k \<le> 1" by blast
      moreover from False have "count_list rk k \<noteq> 0" by (simp add: count_list_0_iff)
      ultimately have "length ?ms = 1"
        using False by (simp add: ms length_matches [OF lrk])
      then obtain x where x: "?ms = [x]"
        by (cases ?ms) auto
      from map_of_first_match [OF x] have "map_of (zip rk vv) k = Some x" .
      with False x show ?thesis by simp
    qed
    have "concat (map (\<lambda>p. map (\<lambda>x. fst p @ [x]) (?g' (snd p))) zs)
        = map (\<lambda>p. fst p @ [?h (snd p)]) zs" if "snd ` set zs \<subseteq> set lk" for zs
      using that
    proof (induction zs)
      case Nil
      show ?case by simp
    next
      case (Cons z zs)
      then have "snd z \<in> set lk" by simp
      from one [OF this] Cons show ?case by simp
    qed
    moreover have "snd ` set (zip (rows main_df) lk) \<subseteq> set lk"
      by (auto dest: set_zip_rightD)
    ultimately show "rows t = map (\<lambda>p. fst p @ [?h (snd p)]) (zip (rows main_df) lk)"
      by (simp only: all_rows)
  qed
  from all_rows count unique show ?thesis by blast
qed

theorem lookup_row_count_witness:
  "apply_vlookup ids_table lookup_step registry
     = Inr (ids_table @ [(''name'', [Null, StrV ''b'', StrV ''c''])])
   \<and> height (ids_table @ [(''name'', [Null, StrV ''b'', StrV ''c''])]) = height ids_table
   \<and> rows (ids_table @ [(''name'', [Null, StrV ''b'', StrV ''c''])])
       = [[IntV 1, Null], [IntV 2, StrV ''b''], [IntV 3, StrV ''c'']]
   \<and> apply_vlookup ids_table lookup_step dup_registry
     = Inr [(''id'', [IntV 1, IntV 2, IntV 2, IntV 3]),
            (''name'', [Null, StrV ''b'', StrV ''c'', Null])]
   \<and> rows [(''id'', [IntV 1, IntV 2, IntV 2, IntV 3 :: real val]),
            (''name'', [Null, StrV ''b'', StrV ''c'', Null])]
       = [[IntV 1, Null], [IntV 2, StrV ''b''], [IntV 2, StrV ''c''], [IntV 3, Null]]"
proof -
  have 1: "wf_table ids_table" by code_simp
  have 2: "lookup_df_name lookup_step = Some ''ref''" by code_simp
  have 3: "registry ''ref'' = Some ref_table" by code_simp
  have 4: "wf_table ref_table" by code_simp
  have 5: "left_on lookup_step = Some ''id''" by code_simp
  have 6: "right_on lookup_step = Some ''rid''" by code_simp
  have 7: "value_col lookup_step = Some ''name''" by code_simp
  have 8: "get_column ids_table ''id'' = Inr [IntV 1, IntV 2, IntV 3]" by code_simp
  have 9: "get_column ref_table ''rid'' = Inr [IntV 2, IntV 3]" by code_simp
  have 10: "get_column ref_table ''name'' = Inr [StrV ''b'', StrV ''c'']" by code_simp
  have 11: "apply_vlookup ids_table lookup_step registry
      = Inr (ids_table @ [(''name'', [Null, StrV ''b'', StrV ''c''])])" by code_simp
  have u: "\<forall>k\<in>set [IntV 1, IntV 2, IntV 3 :: real val].
      k \<noteq> Null \<longrightarrow> count_list [IntV 2, IntV 3] k \<le> 1" by simp
  note unique = lookup_row_count [OF 1 2 3 4 5 6 7 8 9 10 11,
      THEN conjunct2, THEN conjunct2, THEN mp, OF u]
  have e1: "map (\<lambda>p. fst p @ [if snd p = Null \<or> snd p \<notin> set [IntV 2, IntV 3] then Null
                             else case map_of (zip [IntV 2, IntV 3] [StrV ''b'', StrV ''c''])
                                         (snd p) of
                                    None \<Rightarrow> Null | Some x \<Rightarrow> x])
               (zip (rows ids_table) [IntV 1, IntV 2, IntV 3 :: real val])
      = [[IntV 1, Null], [IntV 2, StrV ''b''], [IntV 3, StrV ''c'']]" by code_simp
  have d3: "dup_registry ''ref'' = Some dup_ref_table" by code_simp
  have d4: "wf_table dup_ref_table" by code_simp
  have d9: "get_column dup_ref_table ''rid'' = Inr [IntV 2, IntV 2]" by code_simp
  have d10: "get_column dup_ref_table ''name'' = Inr [StrV ''b'', StrV ''c'']" by code_simp
  have d11: "apply_vlookup ids_table lookup_step dup_registry
     = Inr [(''id'', [IntV 1, IntV 2, IntV 2, IntV 3]),
            (''name'', [Null, StrV ''b'', StrV ''c'', Null])]" by code_simp
  note general = lookup_row_count [OF 1 2 d3 d4 5 6 7 8 d9 d10 d11, THEN conjunct1]
  have e2: "concat (map (\<lambda>p. map (\<lambda>x. fst p @ [x])
                            (if snd p = Null \<or> snd p \<notin> set [IntV 2, IntV 2] then [Null]
                             else map snd (filter (\<lambda>q. fst q = snd p)
                                    (zip [IntV 2, IntV 2] [StrV ''b'', StrV ''c'']))))
                       (zip (rows ids_table) [IntV 1, IntV 2, IntV 3 :: real val]))
      = [[IntV 1, Null], [IntV 2, StrV ''b''], [IntV 2, StrV ''c''], [IntV 3, Null]]"
    by code_simp
  from unique general 11 d11 show ?thesis
    by (simp only: e1 e2)
qed

text \<open>
  The concrete scenario of the lookup, and the general rule when no column of the current
  table bears the name of \<^verbatim>\<open>value_col\<close>: the imported column is the one named
  \<^verbatim>\<open>new_col_name\<close>, appended after the columns of the current table.
\<close>

lemma lookup_scenario:
  "apply_vlookup ids_table lookup_step registry
     = Inr [(''id'', [IntV 1, IntV 2, IntV 3]), (''name'', [Null, StrV ''b'', StrV ''c''])]"
  by code_simp

lemma lookup_renames_imported_column:
  assumes "apply_vlookup main_df d all_dfs = Inr t"
    and "value_col d = Some v" and "v \<notin> set (columns main_df)"
    and "new_col_name d = Some new"
  shows "columns t = columns main_df @ [new]"
proof -
  from apply_vlookup_Inr [OF assms(1)] assms(2,4)
  obtain lk rk vv where
    t: "t = map (\<lambda>c. (if fst c = v then new else fst c, snd c))
             (map (\<lambda>c. (fst c, left_values lk rk (snd c))) main_df
              @ [(if v \<in> set (columns main_df) then v @ ''_right'' else v,
                  right_values lk rk vv)])"
    by auto
  have "map (\<lambda>c. if fst c = v then new else fst c) main_df = map fst main_df"
    using assms(3) by (induction main_df) (auto simp: columns_def)
  then show ?thesis
    using assms(3) by (auto simp: t columns_def comp_def)
qed

text \<open>
  C6. The claim: the imported \<^verbatim>\<open>value_col\<close> appears in the result under the name
  \<^verbatim>\<open>new_col_name\<close>. The code, when the current table has a column \<^verbatim>\<open>name\<close> of its own:
  the join gives the imported column the name \<^verbatim>\<open>name_right\<close>, and
  \<^verbatim>\<open>rename({'name': 'label'})\<close> then renames the column of the current table.
\<close>

theorem lookup_renames_wrong_column_on_name_clash:
  "apply_vlookup named_table label_step registry
     = Inr [(''id'', [IntV 1, IntV 2, IntV 3]),
            (''label'', [StrV ''x'', StrV ''y'', StrV ''z'']),
            (''name_right'', [Null, StrV ''b'', StrV ''c''])]"
  by code_simp

section \<open>Arithmetic\<close>






end
